theory Spec2Isabelle
  imports Complex_Main
begin

section \<open>Python values\<close>

text \<open>
  Plans, tool results and LLM answers are JSON-like Python values. A dict is an
  association list in insertion order with string keys (every dict of the program is
  built from string keys or parsed from JSON). A float is represented by the rational it
  denotes; only its truth value is ever inspected.
\<close>

datatype pyval =
    PNone
  | PBool bool
  | PInt int
  | PFloat rat
  | PStr string
  | PList "pyval list"
  | PDict "(string \<times> pyval) list"

type_synonym pydict = "(string \<times> pyval) list"

text \<open>Exceptions carry the text that \<open>str(e)\<close> yields.\<close>

datatype exn =
    ValueError string
  | TypeError string
  | AttributeError string
  | KeyError string
  | OtherError string

definition quote :: string where
  "quote = [CHR 0x27]"

fun exn_str :: "exn \<Rightarrow> string" where
  "exn_str (ValueError m) = m"
| "exn_str (TypeError m) = m"
| "exn_str (AttributeError m) = m"
| "exn_str (KeyError k) = quote @ k @ quote"
| "exn_str (OtherError m) = m"

fun type_name :: "pyval \<Rightarrow> string" where
  "type_name PNone = ''NoneType''"
| "type_name (PBool _) = ''bool''"
| "type_name (PInt _) = ''int''"
| "type_name (PFloat _) = ''float''"
| "type_name (PStr _) = ''str''"
| "type_name (PList _) = ''list''"
| "type_name (PDict _) = ''dict''"

text \<open>Truth value of a Python object, as \<open>if x:\<close> and \<open>and\<close> test it.\<close>

fun truthy :: "pyval \<Rightarrow> bool" where
  "truthy PNone = False"
| "truthy (PBool b) = b"
| "truthy (PInt n) = (n \<noteq> 0)"
| "truthy (PFloat q) = (q \<noteq> 0)"
| "truthy (PStr s) = (s \<noteq> [])"
| "truthy (PList xs) = (xs \<noteq> [])"
| "truthy (PDict d) = (d \<noteq> [])"

subsection \<open>Dict operations\<close>

text \<open>\<open>d.get(k)\<close> without default: \<open>None\<close> stands for Python's \<open>None\<close> result.\<close>

fun dict_get :: "pydict \<Rightarrow> string \<Rightarrow> pyval option" where
  "dict_get [] k = None"
| "dict_get ((k', v) # d) k = (if k' = k then Some v else dict_get d k)"

definition dict_get_default :: "pydict \<Rightarrow> string \<Rightarrow> pyval \<Rightarrow> pyval" where
  "dict_get_default d k dflt = (case dict_get d k of None \<Rightarrow> dflt | Some v \<Rightarrow> v)"

definition dict_has :: "pydict \<Rightarrow> string \<Rightarrow> bool" where
  "dict_has d k = (dict_get d k \<noteq> None)"

text \<open>\<open>d[k] = v\<close>: an existing key keeps its position, a new key goes to the end.\<close>

fun dict_set :: "pydict \<Rightarrow> string \<Rightarrow> pyval \<Rightarrow> pydict" where
  "dict_set [] k v = [(k, v)]"
| "dict_set ((k', v') # d) k v = (if k' = k then (k, v) # d else (k', v') # dict_set d k v)"

text \<open>\<open>d.get("error")\<close> used as a condition.\<close>

definition error_flag :: "pydict \<Rightarrow> bool" where
  "error_flag d = (case dict_get d ''error'' of None \<Rightarrow> False | Some v \<Rightarrow> truthy v)"

subsection \<open>Strings\<close>

text \<open>\<open>sub in s\<close> on strings.\<close>

fun is_sub :: "string \<Rightarrow> string \<Rightarrow> bool" where
  "is_sub sub [] = (sub = [])"
| "is_sub sub (c # s) = (take (length sub) (c # s) = sub \<or> is_sub sub s)"

definition digit_char :: "nat \<Rightarrow> char" where
  "digit_char d = ''0123456789'' ! d"

text \<open>\<open>str(n)\<close> for a non-negative integer.\<close>

fun str_of_nat :: "nat \<Rightarrow> string" where
  "str_of_nat n = (if n < 10 then [digit_char n] else str_of_nat (n div 10) @ [digit_char (n mod 10)])"

declare str_of_nat.simps [simp del]

definition str_of_int :: "int \<Rightarrow> string" where
  "str_of_int z = (if z < 0 then ''-'' @ str_of_nat (nat (- z)) else str_of_nat (nat z))"

section \<open>The outside world\<close>

text \<open>
  The registry binds four methods. Three of them perform HTTP requests; what such a call
  answers is a parameter of the model, indexed by the position of the step in the plan so
  that two equal calls may answer differently. \<open>get_weather_forecast\<close> is pure and is
  modelled below. The LLM is a parameter too: \<open>generate_json\<close> either raises or returns
  the parsed JSON value; its prompt is determined by the data listed in \<open>llm_call\<close>.
  The texts that the interpreter composes for a failed call binding, and \<open>str()\<close> of
  floats, lists and dicts, are parameters as well.
\<close>

datatype bound_action = SearchRepos | GetRepoInfo | GetWeather | GetForecast

datatype outcome = Returns pyval | Raises exn

record report =
  steps_executed :: int
  steps_failed :: int
  results :: pydict

datatype llm_call =
    PlanRequest string
  | RefineRequest pyval string
  | VerifyRequest report string

record env =
  tool_call :: "nat \<Rightarrow> bound_action \<Rightarrow> pyval \<Rightarrow> outcome"
  generate_json :: "llm_call \<Rightarrow> exn + pyval"
  binding_error :: "bound_action \<Rightarrow> pyval \<Rightarrow> string"
  render :: "pyval \<Rightarrow> string"

text \<open>\<open>str(v)\<close> as an f-string applies it.\<close>

fun py_str :: "env \<Rightarrow> pyval \<Rightarrow> string" where
  "py_str env PNone = ''None''"
| "py_str env (PBool b) = (if b then ''True'' else ''False'')"
| "py_str env (PInt n) = str_of_int n"
| "py_str env (PStr s) = s"
| "py_str env v = render env v"

section \<open>Weather tool: the forecast stub\<close>

text \<open>
  \<open>WeatherTool.get_weather_forecast(self, city, days=5)\<close> called as \<open>method(**params)\<close>:
  the call binds when \<open>params\<close> is a mapping with the key \<open>city\<close> and no key other
  than \<open>city\<close> and \<open>days\<close>; otherwise the interpreter raises TypeError.
\<close>

definition get_weather_forecast :: "env \<Rightarrow> pyval \<Rightarrow> outcome" where
  "get_weather_forecast env params =
     (case params of
        PDict kw \<Rightarrow>
          (if list_all (\<lambda>k. k = ''city'' \<or> k = ''days'') (map fst kw) then
             (case dict_get kw ''city'' of
                Some city \<Rightarrow>
                  Returns (PDict [(''city'', city), (''forecast'', PList []),
                                  (''error'', PStr ''Forecast not implemented'')])
              | None \<Rightarrow> Raises (TypeError (binding_error env GetForecast params)))
           else Raises (TypeError (binding_error env GetForecast params)))
      | _ \<Rightarrow> Raises (TypeError (binding_error env GetForecast params)))"

section \<open>Executor\<close>

definition action_map :: "(string \<times> (string \<times> bound_action) list) list" where
  "action_map =
     [(''github'', [(''search_repos'', SearchRepos), (''get_repo_info'', GetRepoInfo)]),
      (''weather'', [(''get_weather'', GetWeather), (''get_forecast'', GetForecast)])]"

text \<open>
  \<open>k in d\<close> and \<open>d[k]\<close> on a dict with string keys, for an arbitrary \<open>k\<close>: an unhashable
  key raises TypeError, a hashable non-string key is absent.
\<close>

fun py_lookup :: "pyval \<Rightarrow> (string \<times> 'a) list \<Rightarrow> exn + 'a option" where
  "py_lookup (PStr s) m = Inr (map_of m s)"
| "py_lookup (PList xs) m = Inl (TypeError (''unhashable type: '' @ quote @ ''list'' @ quote))"
| "py_lookup (PDict d) m = Inl (TypeError (''unhashable type: '' @ quote @ ''dict'' @ quote))"
| "py_lookup v m = Inr None"

text \<open>The call \<open>method(**params)\<close> for the bound method \<open>m\<close>, as the \<open>i\<close>-th step of a plan.\<close>

definition invoke :: "env \<Rightarrow> nat \<Rightarrow> bound_action \<Rightarrow> pyval \<Rightarrow> outcome" where
  "invoke env i m params =
     (case m of
        GetForecast \<Rightarrow> get_weather_forecast env params
      | _ \<Rightarrow> tool_call env i m params)"

definition invalid_parameters :: "string \<Rightarrow> pyval" where
  "invalid_parameters msg =
     PDict [(''error'', PBool True), (''message'', PStr (''Invalid parameters: '' @ msg))]"

definition execute_step :: "env \<Rightarrow> nat \<Rightarrow> pydict \<Rightarrow> exn + pyval" where
  "execute_step env i step =
     (let tool_name = dict_get_default step ''tool'' PNone;
          action_name = dict_get_default step ''action'' PNone;
          params = dict_get_default step ''params'' (PDict [])
      in case py_lookup tool_name action_map of
           Inl e \<Rightarrow> Inl e
         | Inr None \<Rightarrow> Inl (ValueError (''Unknown tool: '' @ py_str env tool_name))
         | Inr (Some actions) \<Rightarrow>
             (case py_lookup action_name actions of
                Inl e \<Rightarrow> Inl e
              | Inr None \<Rightarrow>
                  Inl (ValueError (''Unknown action '' @ quote @ py_str env action_name @ quote
                                   @ '' for tool '' @ quote @ py_str env tool_name @ quote))
              | Inr (Some m) \<Rightarrow>
                  (case invoke env i m params of
                     Returns v \<Rightarrow> Inr v
                   | Raises (TypeError msg) \<Rightarrow> Inr (invalid_parameters msg)
                   | Raises e \<Rightarrow> Inl e)))"

text \<open>\<open>f"{step['tool']}_{step['action']}"\<close>: subscripting raises KeyError on a missing key.\<close>

definition result_key :: "env \<Rightarrow> pydict \<Rightarrow> exn + string" where
  "result_key env step =
     (case dict_get step ''tool'' of
        None \<Rightarrow> Inl (KeyError ''tool'')
      | Some t \<Rightarrow>
          (case dict_get step ''action'' of
             None \<Rightarrow> Inl (KeyError ''action'')
           | Some a \<Rightarrow> Inr (py_str env t @ ''_'' @ py_str env a)))"

text \<open>
  The failure check after a step returned (the \<open>if\<close>/\<open>elif\<close> on the result): whether
  \<open>steps_failed\<close> is incremented. \<open>result[0].get\<close> raises AttributeError when the first
  element of a non-empty list is not a dict.
\<close>

definition no_attribute :: "pyval \<Rightarrow> string \<Rightarrow> exn" where
  "no_attribute v a =
     AttributeError (quote @ type_name v @ quote @ '' object has no attribute '' @ quote @ a @ quote)"

fun completed_with_errors :: "pyval \<Rightarrow> exn + bool" where
  "completed_with_errors (PDict d) = Inr (error_flag d)"
| "completed_with_errors (PList []) = Inr False"
| "completed_with_errors (PList (PDict d # xs)) = Inr (error_flag d)"
| "completed_with_errors (PList (x # xs)) = Inl (no_attribute x ''get'')"
| "completed_with_errors v = Inr False"

definition error_key :: "nat \<Rightarrow> string" where
  "error_key i = ''error_step_'' @ str_of_nat i"

definition error_record :: "exn \<Rightarrow> pydict \<Rightarrow> pyval" where
  "error_record e step =
     PDict [(''error'', PBool True), (''message'', PStr (exn_str e)), (''step'', PDict step)]"

text \<open>The \<open>except Exception\<close> handler of the loop body.\<close>

definition handle_step_error :: "nat \<Rightarrow> pydict \<Rightarrow> exn \<Rightarrow> report \<Rightarrow> report" where
  "handle_step_error i step e r =
     r\<lparr>results := dict_set (results r) (error_key i) (error_record e step),
       steps_failed := steps_failed r + 1\<rparr>"

text \<open>
  One iteration of the loop of \<open>execute_plan\<close> for a step that is a dict: the \<open>try\<close>
  block, interrupted wherever a statement raises, with the effects made so far kept.
\<close>

definition step_body :: "env \<Rightarrow> nat \<Rightarrow> pydict \<Rightarrow> report \<Rightarrow> report" where
  "step_body env i step r =
     (case execute_step env i step of
        Inl e \<Rightarrow> handle_step_error i step e r
      | Inr result \<Rightarrow>
          (case result_key env step of
             Inl e \<Rightarrow> handle_step_error i step e r
           | Inr key0 \<Rightarrow>
               (let key = (if dict_has (results r) key0 then key0 @ ''_'' @ str_of_nat i else key0);
                    r1 = r\<lparr>results := dict_set (results r) key result,
                           steps_executed := steps_executed r + 1\<rparr>
                in case completed_with_errors result of
                     Inl e \<Rightarrow> handle_step_error i step e r1
                   | Inr True \<Rightarrow> r1\<lparr>steps_failed := steps_failed r1 + 1\<rparr>
                   | Inr False \<Rightarrow> r1)))"

text \<open>
  The loop over \<open>enumerate(steps)\<close>. The log line before the \<open>try\<close> calls \<open>step.get\<close>,
  which raises out of \<open>execute_plan\<close> when a step is not a dict.
\<close>

fun run_steps :: "env \<Rightarrow> nat \<Rightarrow> pyval list \<Rightarrow> report \<Rightarrow> exn + report" where
  "run_steps env i [] r = Inr r"
| "run_steps env i (PDict step # ss) r = run_steps env (Suc i) ss (step_body env i step r)"
| "run_steps env i (s # ss) r = Inl (no_attribute s ''get'')"

text \<open>
  What \<open>len\<close> and \<open>enumerate\<close> see of a value: the elements of a list, the characters
  of a string, the keys of a dict; anything else has no length.
\<close>

fun py_items :: "pyval \<Rightarrow> exn + pyval list" where
  "py_items (PList xs) = Inr xs"
| "py_items (PStr s) = Inr (map (\<lambda>c. PStr [c]) s)"
| "py_items (PDict d) = Inr (map (\<lambda>kv. PStr (fst kv)) d)"
| "py_items v = Inl (TypeError (''object of type '' @ quote @ type_name v @ quote @ '' has no len()''))"

text \<open>\<open>plan.get("steps", [])\<close>, as the log line and the loop header read it.\<close>

definition plan_steps :: "pyval \<Rightarrow> exn + pyval list" where
  "plan_steps plan =
     (case plan of
        PDict p \<Rightarrow> py_items (dict_get_default p ''steps'' (PList []))
      | _ \<Rightarrow> Inl (no_attribute plan ''get''))"

definition empty_report :: report where
  "empty_report = \<lparr>steps_executed = 0, steps_failed = 0, results = []\<rparr>"

definition execute_plan :: "env \<Rightarrow> pyval \<Rightarrow> exn + report" where
  "execute_plan env plan =
     (case plan_steps plan of
        Inl e \<Rightarrow> Inl e
      | Inr steps \<Rightarrow> run_steps env 0 steps empty_report)"

section \<open>Verifier\<close>

record verdict =
  status :: string
  missing_fields :: "pyval list"
  errors :: "string list"

text \<open>\<open>if validation["status"] == "success": validation["status"] = "partial"\<close>\<close>

definition downgrade :: "verdict \<Rightarrow> verdict" where
  "downgrade v = (if status v = ''success'' then v\<lparr>status := ''partial''\<rparr> else v)"

definition add_error :: "string \<Rightarrow> verdict \<Rightarrow> verdict" where
  "add_error msg v = v\<lparr>errors := errors v @ [msg]\<rparr>"

text \<open>The body of the loop over \<open>results.items()\<close> in \<open>_basic_validation\<close>.\<close>

fun check_entry :: "env \<Rightarrow> verdict \<Rightarrow> string \<times> pyval \<Rightarrow> verdict" where
  "check_entry env v (key, PDict d) =
     (if error_flag d then
        add_error (key @ '': '' @ py_str env (dict_get_default d ''message'' (PStr ''Unknown error'')))
          (downgrade v)
      else v)"
| "check_entry env v (key, PList (PDict d # xs)) =
     (if error_flag d then
        add_error (key @ '': '' @ py_str env (dict_get_default d ''description'' (PStr ''Unknown error'')))
          (downgrade v)
      else v)"
| "check_entry env v (key, value) = v"

definition basic_validation :: "env \<Rightarrow> report \<Rightarrow> verdict" where
  "basic_validation env r =
     (let v0 = \<lparr>status = ''success'', missing_fields = [], errors = []\<rparr>;
          v1 = (if steps_failed r > 0
                then add_error (str_of_int (steps_failed r) @ '' step(s) failed'') (v0\<lparr>status := ''partial''\<rparr>)
                else v0);
          v2 = (if steps_executed r = 0
                then add_error ''No steps executed successfully'' (v1\<lparr>status := ''failed''\<rparr>)
                else v1)
      in foldl (check_entry env) v2 (results r))"

text \<open>
  The loop of \<open>_format_results\<close> over the raw results; the state is the pair
  \<open>(github_repos, weather_data)\<close>.
\<close>

fun organize :: "pyval list \<times> pydict \<Rightarrow> string \<times> pyval \<Rightarrow> pyval list \<times> pydict" where
  "organize (github_repos, weather_data) (key, value) =
     (if is_sub ''github'' key then
        (case value of
           PList xs \<Rightarrow> (github_repos @ xs, weather_data)
         | PDict d \<Rightarrow> (github_repos @ [PDict d], weather_data)
         | _ \<Rightarrow> (github_repos, weather_data))
      else if is_sub ''weather'' key then
        (case value of
           PDict d \<Rightarrow> (github_repos, d)
         | _ \<Rightarrow> (github_repos, weather_data))
      else (github_repos, weather_data))"

definition format_results :: "report \<Rightarrow> verdict \<Rightarrow> pyval" where
  "format_results execution_results validation =
     (case foldl organize ([], []) (results execution_results) of
        (github_repos, weather_data) \<Rightarrow>
          PDict [(''status'', PStr (status validation)),
                 (''results'',
                    PDict ((if github_repos \<noteq> [] then [(''github_repos'', PList github_repos)] else [])
                           @ (if weather_data \<noteq> [] then [(''weather'', PDict weather_data)] else []))),
                 (''missing_fields'', PList (missing_fields validation)),
                 (''errors'', PList (map PStr (errors validation)))])"

text \<open>
  \<open>key not in x\<close> and \<open>x[key] = v\<close> for a string key and an arbitrary JSON value \<open>x\<close>,
  as \<open>_llm_verification\<close> applies them to the LLM's answer.
\<close>

fun py_contains :: "string \<Rightarrow> pyval \<Rightarrow> exn + bool" where
  "py_contains k (PDict d) = Inr (dict_has d k)"
| "py_contains k (PList xs) = Inr (PStr k \<in> set xs)"
| "py_contains k (PStr s) = Inr (is_sub k s)"
| "py_contains k v =
     Inl (TypeError (''argument of type '' @ quote @ type_name v @ quote @ '' is not iterable''))"

fun py_setitem :: "pyval \<Rightarrow> string \<Rightarrow> pyval \<Rightarrow> exn + pyval" where
  "py_setitem (PDict d) k v = Inr (PDict (dict_set d k v))"
| "py_setitem (PList xs) k v = Inl (TypeError ''list indices must be integers or slices, not str'')"
| "py_setitem x k v =
     Inl (TypeError (quote @ type_name x @ quote @ '' object does not support item assignment''))"

definition backfill :: "string \<Rightarrow> pyval \<Rightarrow> pyval \<Rightarrow> exn + pyval" where
  "backfill k dflt x =
     (case py_contains k x of
        Inl e \<Rightarrow> Inl e
      | Inr True \<Rightarrow> Inr x
      | Inr False \<Rightarrow> py_setitem x k dflt)"

definition llm_verification :: "env \<Rightarrow> report \<Rightarrow> string \<Rightarrow> exn + pyval" where
  "llm_verification env execution_results original_request =
     (case generate_json env (VerifyRequest execution_results original_request) of
        Inl e \<Rightarrow> Inl e
      | Inr verified_output \<Rightarrow>
          (case backfill ''status'' (PStr ''partial'') verified_output of
             Inl e \<Rightarrow> Inl e
           | Inr out1 \<Rightarrow> backfill ''results'' (PDict []) out1))"

definition verify_and_format :: "env \<Rightarrow> report \<Rightarrow> string \<Rightarrow> pyval" where
  "verify_and_format env execution_results original_request =
     (let basic = basic_validation env execution_results
      in if status basic = ''success'' then format_results execution_results basic
         else (case llm_verification env execution_results original_request of
                 Inr llm_validation \<Rightarrow> llm_validation
               | Inl e \<Rightarrow> format_results execution_results basic))"

section \<open>Planner\<close>

definition valid_tools :: "pyval list" where
  "valid_tools = [PStr ''github'', PStr ''weather'']"

text \<open>The loop of \<open>_validate_plan\<close> over the steps, returning at the first invalid one.\<close>

fun validate_steps :: "pyval list \<Rightarrow> bool" where
  "validate_steps [] = True"
| "validate_steps (PDict step # ss) =
     (if \<not> dict_has step ''tool'' then False
      else if \<not> dict_has step ''action'' then False
      else if \<not> dict_has step ''params'' then False
      else if dict_get_default step ''tool'' PNone \<notin> set valid_tools then False
      else validate_steps ss)"
| "validate_steps (s # ss) = False"

fun validate_plan :: "pyval \<Rightarrow> bool" where
  "validate_plan (PDict plan) =
     (case dict_get plan ''steps'' of
        None \<Rightarrow> False
      | Some (PList steps) \<Rightarrow> validate_steps steps
      | Some _ \<Rightarrow> False)"
| "validate_plan _ = False"

text \<open>\<open>create_plan\<close>: every failure, of the LLM or of validation, is raised to the caller.\<close>

definition create_plan :: "env \<Rightarrow> string \<Rightarrow> exn + pyval" where
  "create_plan env user_input =
     (case generate_json env (PlanRequest user_input) of
        Inl e \<Rightarrow> Inl e
      | Inr plan \<Rightarrow>
          (if \<not> validate_plan plan then Inl (ValueError ''Invalid plan structure generated'')
           else Inr plan))"

text \<open>
  \<open>refine_plan\<close>: the \<open>except Exception\<close> around the LLM call and the validation returns
  the original plan.
\<close>

definition refine_plan :: "env \<Rightarrow> pyval \<Rightarrow> string \<Rightarrow> pyval" where
  "refine_plan env plan feedback =
     (case generate_json env (RefineRequest plan feedback) of
        Inr refined_plan \<Rightarrow> (if validate_plan refined_plan then refined_plan else plan)
      | Inl e \<Rightarrow> plan)"

section \<open>Notions used to state the properties\<close>

subsection \<open>Shapes of values\<close>

definition is_dict :: "pyval \<Rightarrow> bool" where
  "is_dict v = (case v of PDict d \<Rightarrow> True | _ \<Rightarrow> False)"

definition as_dict :: "pyval \<Rightarrow> pydict" where
  "as_dict v = (case v of PDict d \<Rightarrow> d | _ \<Rightarrow> [])"

text \<open>
  The tools announce \<open>Dict[str, Any]\<close> or \<open>List[Dict[str, Any]]\<close> as their results, and
  their bodies return nothing else. \<open>tools_ok\<close> says that the three tools that are
  parameters of the model keep to it.
\<close>

definition result_shape :: "pyval \<Rightarrow> bool" where
  "result_shape v = (case v of PDict d \<Rightarrow> True | PList xs \<Rightarrow> list_all is_dict xs | _ \<Rightarrow> False)"

definition tools_ok :: "env \<Rightarrow> bool" where
  "tools_ok env = (\<forall>i m params v. tool_call env i m params = Returns v \<longrightarrow> result_shape v)"

subsection \<open>Registry and report keys\<close>

text \<open>
  The bound method that the two lookups of \<open>_execute_step\<close> find for a step, if any, and
  the key \<open><tool>_<action>\<close> of a step whose tool and action are strings.
\<close>

definition bound_method :: "pydict \<Rightarrow> bound_action option" where
  "bound_method step =
     (case dict_get step ''tool'' of
        Some (PStr t) \<Rightarrow>
          (case map_of action_map t of
             Some actions \<Rightarrow>
               (case dict_get step ''action'' of
                  Some (PStr a) \<Rightarrow> map_of actions a
                | _ \<Rightarrow> None)
           | None \<Rightarrow> None)
      | _ \<Rightarrow> None)"

definition short_key :: "pydict \<Rightarrow> string" where
  "short_key step =
     (case (dict_get step ''tool'', dict_get step ''action'') of
        (Some (PStr t), Some (PStr a)) \<Rightarrow> t @ ''_'' @ a
      | _ \<Rightarrow> [])"

definition base_keys :: "string list" where
  "base_keys = concat (map (\<lambda>(t, actions). map (\<lambda>(a, m). t @ ''_'' @ a) actions) action_map)"

definition is_error_key :: "string \<Rightarrow> bool" where
  "is_error_key k = (take 11 k = ''error_step_'')"

subsection \<open>What a step contributes to the report\<close>

text \<open>
  Closed forms, by position in the plan: whether the dispatch of step \<open>j\<close> returned,
  whether the step counts as failed, whether an earlier step already stored an outcome
  under a short key, the key under which step \<open>j\<close> stores its outcome, and the entries
  step \<open>j\<close> adds to the results. \<open>report_inv\<close> is the invariant of the loop of
  \<open>execute_plan\<close> after the steps \<open>pre\<close>.
\<close>

definition returns_at :: "env \<Rightarrow> pyval list \<Rightarrow> nat \<Rightarrow> bool" where
  "returns_at env steps j =
     (case execute_step env j (as_dict (steps ! j)) of Inr v \<Rightarrow> True | Inl e \<Rightarrow> False)"

definition failed_at :: "env \<Rightarrow> pyval list \<Rightarrow> nat \<Rightarrow> bool" where
  "failed_at env steps j =
     (case execute_step env j (as_dict (steps ! j)) of
        Inl e \<Rightarrow> True
      | Inr v \<Rightarrow> (case completed_with_errors v of Inl e \<Rightarrow> True | Inr b \<Rightarrow> b))"

definition used_before :: "env \<Rightarrow> pyval list \<Rightarrow> nat \<Rightarrow> string \<Rightarrow> bool" where
  "used_before env steps j key =
     (\<exists>k<j. returns_at env steps k \<and> short_key (as_dict (steps ! k)) = key)"

definition report_key :: "env \<Rightarrow> pyval list \<Rightarrow> nat \<Rightarrow> string" where
  "report_key env steps j =
     (let key = short_key (as_dict (steps ! j))
      in if used_before env steps j key then key @ ''_'' @ str_of_nat j else key)"

definition step_entries :: "env \<Rightarrow> pyval list \<Rightarrow> nat \<Rightarrow> pydict" where
  "step_entries env steps j =
     (let step = as_dict (steps ! j)
      in case execute_step env j step of
           Inl e \<Rightarrow> [(error_key j, error_record e step)]
         | Inr v \<Rightarrow>
             (report_key env steps j, v) #
             (case completed_with_errors v of
                Inl e \<Rightarrow> [(error_key j, error_record e step)]
              | Inr b \<Rightarrow> []))"

definition step_entry :: "env \<Rightarrow> pyval list \<Rightarrow> nat \<Rightarrow> string \<times> pyval" where
  "step_entry env steps j =
     (let step = as_dict (steps ! j)
      in case execute_step env j step of
           Inl e \<Rightarrow> (error_key j, error_record e step)
         | Inr v \<Rightarrow> (report_key env steps j, v))"

definition old_key :: "nat \<Rightarrow> string \<Rightarrow> bool" where
  "old_key n k \<longleftrightarrow>
     k \<in> set base_keys \<or>
     (\<exists>j<n. k = error_key j \<or> (\<exists>b \<in> set base_keys. k = b @ ''_'' @ str_of_nat j))"

definition report_inv :: "env \<Rightarrow> pyval list \<Rightarrow> report \<Rightarrow> bool" where
  "report_inv env pre r \<longleftrightarrow>
     results r = concat (map (step_entries env pre) [0..<length pre]) \<and>
     steps_executed r = int (length (filter (returns_at env pre) [0..<length pre])) \<and>
     steps_failed r = int (length (filter (failed_at env pre) [0..<length pre])) \<and>
     distinct (map fst (results r)) \<and>
     (\<forall>k \<in> fst ` set (results r). old_key (length pre) k) \<and>
     (\<forall>key \<in> set base_keys. dict_has (results r) key \<longleftrightarrow> used_before env pre (length pre) key)"

subsection \<open>Verdicts and grouping\<close>

text \<open>
  The embedded error marker that \<open>_basic_validation\<close> looks for in an entry, and the
  grouping of \<open>_format_results\<close> written with \<open>filter\<close>, \<open>concat\<close> and \<open>last\<close> instead of
  a loop.
\<close>

definition entry_flagged :: "pyval \<Rightarrow> bool" where
  "entry_flagged value =
     (case value of
        PDict d \<Rightarrow> error_flag d
      | PList (PDict d # xs) \<Rightarrow> error_flag d
      | _ \<Rightarrow> False)"

definition flatten_github :: "string \<times> pyval \<Rightarrow> pyval list" where
  "flatten_github kv = (case snd kv of PList xs \<Rightarrow> xs | PDict d \<Rightarrow> [PDict d] | _ \<Rightarrow> [])"

definition github_repos_of :: "pydict \<Rightarrow> pyval list" where
  "github_repos_of rs = concat (map flatten_github (filter (\<lambda>kv. is_sub ''github'' (fst kv)) rs))"

definition weather_entry :: "string \<times> pyval \<Rightarrow> bool" where
  "weather_entry kv \<longleftrightarrow> \<not> is_sub ''github'' (fst kv) \<and> is_sub ''weather'' (fst kv) \<and> is_dict (snd kv)"

definition weather_from :: "pydict \<Rightarrow> pydict \<Rightarrow> pydict" where
  "weather_from w rs = (case filter weather_entry rs of [] \<Rightarrow> w | ws \<Rightarrow> as_dict (snd (last ws)))"

definition grouped_results :: "pydict \<Rightarrow> pydict" where
  "grouped_results rs =
     (if github_repos_of rs \<noteq> [] then [(''github_repos'', PList (github_repos_of rs))] else [])
     @ (if weather_from [] rs \<noteq> [] then [(''weather'', PDict (weather_from [] rs))] else [])"

subsection \<open>Structural validity of a plan\<close>

text \<open>
  Validity as the specification words it: the root is an object with a \<open>steps\<close> field
  holding a sequence; every element is an object containing \<open>tool\<close>, \<open>action\<close> and
  \<open>params\<close>; the tool is \<open>github\<close> or \<open>weather\<close>.
\<close>

definition step_structure :: "pyval \<Rightarrow> bool" where
  "step_structure s =
     (case s of
        PDict d \<Rightarrow>
          dict_has d ''tool'' \<and> dict_has d ''action'' \<and> dict_has d ''params'' \<and>
          (dict_get d ''tool'' = Some (PStr ''github'') \<or> dict_get d ''tool'' = Some (PStr ''weather''))
      | _ \<Rightarrow> False)"

definition plan_structure :: "pyval \<Rightarrow> bool" where
  "plan_structure p =
     (case p of
        PDict d \<Rightarrow>
          (case dict_get d ''steps'' of
             Some (PList steps) \<Rightarrow> list_all step_structure steps
           | _ \<Rightarrow> False)
      | _ \<Rightarrow> False)"

subsection \<open>Example data\<close>

text \<open>
  An environment whose HTTP tools answer one repository and whose LLM answers text that is
  not JSON; the same environment with an LLM that answers a given JSON value; plans and
  reports used to evaluate the model.
\<close>

definition demo_env :: env where
  "demo_env =
     \<lparr>tool_call = (\<lambda>i m p. Returns (PList [PDict [(''name'', PStr ''octocat/hello'')]])),
      generate_json = (\<lambda>c. Inl (ValueError ''LLM did not return valid JSON'')),
      binding_error = (\<lambda>m p. ''missing 1 required positional argument''),
      render = (\<lambda>v. ''...'')\<rparr>"

definition answering_env :: "pyval \<Rightarrow> env" where
  "answering_env answer = demo_env\<lparr>generate_json := (\<lambda>c. Inr answer)\<rparr>"

definition mk_step :: "string \<Rightarrow> string \<Rightarrow> pydict \<Rightarrow> pyval" where
  "mk_step t a ps = PDict [(''tool'', PStr t), (''action'', PStr a), (''params'', PDict ps)]"


definition demo_plan :: pyval where
  "demo_plan =
     PDict [(''steps'',
             PList [mk_step ''github'' ''search_repos'' [(''query'', PStr ''python'')],
                    mk_step ''github'' ''search_repos'' [(''query'', PStr ''rust'')],
                    mk_step ''slack'' ''post'' []])]"

definition demo_repos :: pyval where
  "demo_repos = PList [PDict [(''name'', PStr ''octocat/hello'')]]"

definition demo_report :: report where
  "demo_report =
     \<lparr>steps_executed = 2, steps_failed = 1,
      results =
        [(''github_search_repos'', demo_repos),
         (''github_search_repos_1'', demo_repos),
         (''error_step_2'',
          PDict [(''error'', PBool True), (''message'', PStr ''Unknown tool: slack''),
                 (''step'', mk_step ''slack'' ''post'' [])])]\<rparr>"

definition forecast_plan :: pyval where
  "forecast_plan =
     PDict [(''steps'', PList [mk_step ''weather'' ''get_forecast'' [(''city'', PStr ''Delhi'')]])]"

definition forecast_report :: report where
  "forecast_report =
     \<lparr>steps_executed = 1, steps_failed = 1,
      results = [(''weather_get_forecast'',
                  PDict [(''city'', PStr ''Delhi''), (''forecast'', PList []),
                         (''error'', PStr ''Forecast not implemented'')])]\<rparr>"

definition empty_weather_report :: report where
  "empty_weather_report =
     \<lparr>steps_executed = 1, steps_failed = 0, results = [(''weather_get_weather'', PDict [])]\<rparr>"

definition mixed_key_report :: report where
  "mixed_key_report =
     \<lparr>steps_executed = 1, steps_failed = 0,
      results = [(''github_weather'', PDict [(''city'', PStr ''Delhi'')])]\<rparr>"

definition optimistic_answer :: pyval where
  "optimistic_answer = PDict [(''status'', PStr ''success''), (''results'', PDict [])]"

definition happy_report :: report where
  "happy_report =
     \<lparr>steps_executed = 2, steps_failed = 0,
      results =
        [(''github_search_repos'',
          PList [PDict [(''name'', PStr ''a/x''), (''stars'', PInt 3)],
                 PDict [(''name'', PStr ''b/y''), (''stars'', PInt 2)],
                 PDict [(''name'', PStr ''c/z''), (''stars'', PInt 1)]]),
         (''weather_get_weather'',
          PDict [(''city'', PStr ''Delhi''), (''temperature'', PInt 31)])]\<rparr>"



section \<open>Facts about the model\<close>

subsection \<open>Strings and dicts\<close>

lemma digit_char_inj: "a < 10 \<Longrightarrow> b < 10 \<Longrightarrow> digit_char a = digit_char b \<Longrightarrow> a = b"
proof -
  assume a: "a < 10" and b: "b < 10" and e: "digit_char a = digit_char b"
  have A: "a \<in> {0,1,2,3,4,5,6,7,8,9}" using a by auto
  have B: "b \<in> {0,1,2,3,4,5,6,7,8,9}" using b by auto
  show ?thesis using A B e by (auto simp: digit_char_def)
qed

lemma str_of_nat_nonempty: "str_of_nat n \<noteq> []"
  by (subst str_of_nat.simps) simp

lemma str_of_nat_inj: "str_of_nat n = str_of_nat m \<Longrightarrow> n = m"
proof (induction n arbitrary: m rule: str_of_nat.induct)
  case (1 n)
  show ?case
  proof (cases "n < 10")
    case True
    show ?thesis
    proof (cases "m < 10")
      case mT: True
      from "1.prems" True mT have "digit_char n = digit_char m"
        by (simp add: str_of_nat.simps)
      then show ?thesis using True mT digit_char_inj by blast
    next
      case mF: False
      from "1.prems" True mF have "[digit_char n] = str_of_nat (m div 10) @ [digit_char (m mod 10)]"
        by (simp add: str_of_nat.simps[of n] str_of_nat.simps[of m])
      then show ?thesis using str_of_nat_nonempty[of "m div 10"] by simp
    qed
  next
    case False
    show ?thesis
    proof (cases "m < 10")
      case mT: True
      from "1.prems" False mT have "str_of_nat (n div 10) @ [digit_char (n mod 10)] = [digit_char m]"
        by (simp add: str_of_nat.simps[of n] str_of_nat.simps[of m])
      then show ?thesis using str_of_nat_nonempty[of "n div 10"] by simp
    next
      case mF: False
      from "1.prems" False mF
      have e: "str_of_nat (n div 10) @ [digit_char (n mod 10)] = str_of_nat (m div 10) @ [digit_char (m mod 10)]"
        by (simp add: str_of_nat.simps[of n] str_of_nat.simps[of m])
      then have e1: "str_of_nat (n div 10) = str_of_nat (m div 10)"
        and e2: "digit_char (n mod 10) = digit_char (m mod 10)" by simp_all
      from "1.IH"[OF False e1] have d: "n div 10 = m div 10" .
      from e2 have r: "n mod 10 = m mod 10" by (intro digit_char_inj) simp_all
      from d r show ?thesis by (metis div_mult_mod_eq)
    qed
  qed
qed

lemma dict_get_map_of: "dict_get d k = map_of d k"
  by (induction d) auto

lemma dict_has_iff: "dict_has d k \<longleftrightarrow> k \<in> fst ` set d"
  by (simp add: dict_has_def dict_get_map_of map_of_eq_None_iff)

lemma dict_set_fresh: "k \<notin> fst ` set d \<Longrightarrow> dict_set d k v = d @ [(k, v)]"
  by (induction d) auto

subsection \<open>Report keys never collide\<close>

lemma base_keys_eq: "base_keys = [''github_search_repos'', ''github_get_repo_info'', ''weather_get_weather'', ''weather_get_forecast'']"
  by (simp add: base_keys_def action_map_def)

lemma error_key_not_base: "error_key n \<notin> set base_keys"
  by (simp add: base_keys_eq error_key_def)

lemma suffixed_not_base: "b \<in> set base_keys \<Longrightarrow> b @ ''_'' @ s \<notin> set base_keys"
  by (auto simp: base_keys_eq)

lemma suffixed_not_error: "b \<in> set base_keys \<Longrightarrow> b @ ''_'' @ s \<noteq> error_key n"
  by (auto simp: base_keys_eq error_key_def)

lemma suffixed_inj:
  "b \<in> set base_keys \<Longrightarrow> b' \<in> set base_keys \<Longrightarrow>
   b @ ''_'' @ str_of_nat i = b' @ ''_'' @ str_of_nat j \<Longrightarrow> i = j"
  by (auto simp: base_keys_eq dest: str_of_nat_inj)

lemma old_key_mono: "old_key n k \<Longrightarrow> old_key (Suc n) k"
  by (auto simp: old_key_def less_Suc_eq)

lemma old_key_not_error: "old_key n k \<Longrightarrow> k \<noteq> error_key n"
  unfolding old_key_def
proof (elim disjE exE conjE bexE)
  assume "k \<in> set base_keys" then show ?thesis using error_key_not_base by auto
next
  fix j assume "j < n" "k = error_key j"
  then show ?thesis by (auto simp: error_key_def dest: str_of_nat_inj)
next
  fix j b assume "j < n" "b \<in> set base_keys" "k = b @ ''_'' @ str_of_nat j"
  then show ?thesis using suffixed_not_error by auto
qed

lemma old_key_not_suffixed:
  assumes "old_key n k" "b \<in> set base_keys"
  shows "k \<noteq> b @ ''_'' @ str_of_nat n"
  using assms(1) unfolding old_key_def
proof (elim disjE exE conjE bexE)
  assume "k \<in> set base_keys" then show ?thesis using suffixed_not_base[OF assms(2)] by auto
next
  fix j assume "j < n" "k = error_key j"
  then show ?thesis using suffixed_not_error[OF assms(2)] by metis
next
  fix j b' assume "j < n" "b' \<in> set base_keys" "k = b' @ ''_'' @ str_of_nat j"
  then show ?thesis using suffixed_inj[OF assms(2), of b' n j] by auto
qed

lemma is_error_key_error: "is_error_key (error_key j)"
  by (simp add: is_error_key_def error_key_def)

lemma not_error_key_base: "b \<in> set base_keys \<Longrightarrow> \<not> is_error_key (b @ s)"
  by (auto simp: base_keys_eq is_error_key_def)

subsection \<open>Dispatch of one step\<close>

lemma bound_method_key:
  assumes "bound_method step = Some m"
  shows "short_key step \<in> set base_keys" and "result_key env step = Inr (short_key step)"
  using assms
  by (auto simp: bound_method_def short_key_def base_keys_eq action_map_def result_key_def
      split: option.splits pyval.splits if_splits)

lemma execute_step_unbound:
  "bound_method step = None \<Longrightarrow> \<exists>e. execute_step env i step = Inl e"
  by (auto simp: bound_method_def execute_step_def dict_get_default_def Let_def
      split: option.splits pyval.splits sum.splits)

lemma execute_step_bound:
  "bound_method step = Some m \<Longrightarrow>
   execute_step env i step =
     (case invoke env i m (dict_get_default step ''params'' (PDict [])) of
        Returns v \<Rightarrow> Inr v
      | Raises (TypeError msg) \<Rightarrow> Inr (invalid_parameters msg)
      | Raises e \<Rightarrow> Inl e)"
  by (auto simp: bound_method_def execute_step_def dict_get_default_def Let_def
      split: option.splits pyval.splits sum.splits)

text \<open>The two \<open>ValueError\<close>s of \<open>_execute_step\<close>, for string names.\<close>

lemma unknown_tool_message:
  assumes "dict_get step ''tool'' = Some (PStr t)" "map_of action_map t = None"
  shows "execute_step env i step = Inl (ValueError (''Unknown tool: '' @ t))"
  using assms by (simp add: execute_step_def dict_get_default_def Let_def)

lemma unknown_action_message:
  assumes "dict_get step ''tool'' = Some (PStr t)" "map_of action_map t = Some actions"
    and "dict_get step ''action'' = Some (PStr a)" "map_of actions a = None"
  shows "execute_step env i step =
           Inl (ValueError (''Unknown action '' @ quote @ a @ quote @ '' for tool '' @ quote @ t @ quote))"
  using assms by (simp add: execute_step_def dict_get_default_def Let_def)

lemma execute_step_Inr_bound:
  assumes "execute_step env i step = Inr v"
  shows "\<exists>m. bound_method step = Some m"
proof (cases "bound_method step")
  case None
  then show ?thesis using execute_step_unbound[of step env i] assms by auto
qed simp

lemma returns_short_key:
  assumes "execute_step env j step = Inr v"
  shows "short_key step \<in> set base_keys"
proof -
  from execute_step_Inr_bound[OF assms] obtain m where "bound_method step = Some m" ..
  then show ?thesis by (rule bound_method_key)
qed

lemma step_body_raised:
  "execute_step env i step = Inl e \<Longrightarrow> step_body env i step r = handle_step_error i step e r"
  by (simp add: step_body_def)

lemma step_body_returned:
  assumes "execute_step env i step = Inr v"
  shows "step_body env i step r =
     (let key = (if dict_has (results r) (short_key step)
                 then short_key step @ ''_'' @ str_of_nat i else short_key step);
          r1 = r\<lparr>results := dict_set (results r) key v, steps_executed := steps_executed r + 1\<rparr>
      in case completed_with_errors v of
           Inl e \<Rightarrow> handle_step_error i step e r1
         | Inr True \<Rightarrow> r1\<lparr>steps_failed := steps_failed r1 + 1\<rparr>
         | Inr False \<Rightarrow> r1)"
proof -
  from execute_step_Inr_bound[OF assms] obtain m where "bound_method step = Some m" ..
  then have "result_key env step = Inr (short_key step)" by (rule bound_method_key)
  then show ?thesis using assms by (simp add: step_body_def)
qed


lemma result_shape_completed: "result_shape v \<Longrightarrow> \<exists>b. completed_with_errors v = Inr b"
proof (cases v)
  case (PList xs)
  assume "result_shape v"
  with PList show ?thesis
    by (cases xs; cases "hd xs") (auto simp: result_shape_def is_dict_def)
qed (simp_all add: result_shape_def)

lemma invoke_shape:
  assumes "tools_ok env" "invoke env i m params = Returns v"
  shows "result_shape v"
proof (cases m)
  case GetForecast
  with assms(2) show ?thesis
    by (auto simp: invoke_def get_weather_forecast_def result_shape_def
        split: pyval.splits if_splits option.splits)
qed (use assms in \<open>auto simp: invoke_def tools_ok_def\<close>)

lemma execute_step_shape:
  assumes "tools_ok env" "execute_step env i step = Inr v"
  shows "result_shape v"
proof -
  from execute_step_Inr_bound[OF assms(2)] obtain m where bm: "bound_method step = Some m" ..
  let ?p = "dict_get_default step ''params'' (PDict [])"
  show ?thesis
  proof (cases "invoke env i m ?p")
    case (Returns w)
    with assms(2) bm have "v = w" by (simp add: execute_step_bound)
    with invoke_shape[OF assms(1) Returns] show ?thesis by simp
  next
    case (Raises e)
    with assms(2) bm show ?thesis
      by (cases e) (auto simp: execute_step_bound invalid_parameters_def result_shape_def)
  qed
qed

subsection \<open>The loop of execute_plan\<close>

lemma returns_at_prefix: "j < length pre \<Longrightarrow> returns_at env (pre @ ss) j = returns_at env pre j"
  by (simp add: returns_at_def nth_append)

lemma failed_at_prefix: "j < length pre \<Longrightarrow> failed_at env (pre @ ss) j = failed_at env pre j"
  by (simp add: failed_at_def nth_append)

lemma used_before_prefix:
  "j \<le> length pre \<Longrightarrow> used_before env (pre @ ss) j key = used_before env pre j key"
proof -
  assume j: "j \<le> length pre"
  have h: "\<And>k. k < j \<Longrightarrow>
      (returns_at env (pre @ ss) k \<and> short_key (as_dict ((pre @ ss) ! k)) = key) =
      (returns_at env pre k \<and> short_key (as_dict (pre ! k)) = key)"
    using j by (simp add: returns_at_prefix nth_append)
  show ?thesis unfolding used_before_def using h by blast
qed

lemma report_key_prefix: "j < length pre \<Longrightarrow> report_key env (pre @ ss) j = report_key env pre j"
  by (simp add: report_key_def used_before_prefix nth_append)

lemma step_entries_prefix:
  "j < length pre \<Longrightarrow> step_entries env (pre @ ss) j = step_entries env pre j"
  by (simp add: step_entries_def Let_def report_key_prefix nth_append split: sum.splits)

lemma used_before_Suc:
  "used_before env steps (Suc j) key \<longleftrightarrow>
     used_before env steps j key \<or> (returns_at env steps j \<and> short_key (as_dict (steps ! j)) = key)"
  by (auto simp: used_before_def less_Suc_eq)

lemma map_prefix_cong:
  "(\<And>j. j < n \<Longrightarrow> f j = g j) \<Longrightarrow> map f [0..<n] = map g [0..<n]"
  by simp

lemma filter_prefix_cong:
  "(\<And>j. j < n \<Longrightarrow> f j = g j) \<Longrightarrow> filter f [0..<n] = filter g [0..<n]"
  by (rule filter_cong) auto

lemma report_inv_step:
  assumes inv: "report_inv env pre r"
  shows "report_inv env (pre @ [PDict step]) (step_body env (length pre) step r)"
proof -
  let ?i = "length pre"
  let ?steps = "pre @ [PDict step]"
  let ?r' = "step_body env ?i step r"
  note i0 = inv[unfolded report_inv_def]
  note res = conjunct1[OF i0] and i1 = conjunct2[OF i0]
  note ex = conjunct1[OF i1] and i2 = conjunct2[OF i1]
  note fl = conjunct1[OF i2] and i3 = conjunct2[OF i2]
  note dist = conjunct1[OF i3] and i4 = conjunct2[OF i3]
  note old = conjunct1[OF i4] and used = conjunct2[OF i4]
  have nth_i: "as_dict (?steps ! ?i) = step" by (simp add: as_dict_def)
  have m1: "map (step_entries env ?steps) [0..<?i] = map (step_entries env pre) [0..<?i]"
    by (rule map_prefix_cong) (simp add: step_entries_prefix)
  have f1: "filter (returns_at env ?steps) [0..<?i] = filter (returns_at env pre) [0..<?i]"
    by (rule filter_prefix_cong) (simp add: returns_at_prefix)
  have f2: "filter (failed_at env ?steps) [0..<?i] = filter (failed_at env pre) [0..<?i]"
    by (rule filter_prefix_cong) (simp add: failed_at_prefix)
  have ub: "\<And>key. used_before env ?steps ?i key = used_before env pre ?i key"
    by (simp add: used_before_prefix)
  have err_fresh: "error_key ?i \<notin> fst ` set (results r)"
    using old old_key_not_error by blast
  have old': "\<forall>k \<in> fst ` set (results r). old_key (Suc ?i) k"
    using old old_key_mono by blast
  have old_err: "old_key (Suc ?i) (error_key ?i)"
    by (auto simp: old_key_def)
  show ?thesis
  proof (cases "execute_step env ?i step")
    case (Inl e)
    have body: "?r' = handle_step_error ?i step e r" by (rule step_body_raised[OF Inl])
    have ent: "step_entries env ?steps ?i = [(error_key ?i, error_record e step)]"
      by (simp add: step_entries_def nth_i Inl del: nth_append_length)
    have nret: "\<not> returns_at env ?steps ?i"
      by (simp add: returns_at_def nth_i Inl del: nth_append_length)
    have fld: "failed_at env ?steps ?i"
      by (simp add: failed_at_def nth_i Inl del: nth_append_length)
    have res': "results ?r' = results r @ [(error_key ?i, error_record e step)]"
      by (simp add: body handle_step_error_def dict_set_fresh[OF err_fresh])
    have c1: "results ?r' = concat (map (step_entries env ?steps) [0..<length ?steps])"
      by (simp add: res' m1 ent res del: nth_append_length)
    have c2: "steps_executed ?r' = int (length (filter (returns_at env ?steps) [0..<length ?steps]))"
      using nret by (simp add: body handle_step_error_def f1 ex del: nth_append_length)
    have c3: "steps_failed ?r' = int (length (filter (failed_at env ?steps) [0..<length ?steps]))"
      using fld by (simp add: body handle_step_error_def f2 fl del: nth_append_length)
    have c4: "distinct (map fst (results ?r'))"
      using dist err_fresh by (simp add: res')
    have c5: "\<forall>k \<in> fst ` set (results ?r'). old_key (length ?steps) k"
      using old' old_err by (auto simp: res')
    have c6: "\<forall>key \<in> set base_keys. dict_has (results ?r') key \<longleftrightarrow> used_before env ?steps (length ?steps) key"
    proof
      fix key assume kb: "key \<in> set base_keys"
      then have ne: "key \<noteq> error_key ?i" using error_key_not_base by auto
      have "dict_has (results ?r') key \<longleftrightarrow> dict_has (results r) key"
        using ne by (auto simp: dict_has_iff res')
      also have "\<dots> \<longleftrightarrow> used_before env pre ?i key" using used kb by blast
      also have "\<dots> \<longleftrightarrow> used_before env ?steps (length ?steps) key"
        using nret by (simp add: used_before_Suc ub del: nth_append_length)
      finally show "dict_has (results ?r') key \<longleftrightarrow> used_before env ?steps (length ?steps) key" .
    qed
    show ?thesis unfolding report_inv_def by (intro conjI c1 c2 c3 c4 c5 c6)
  next
    case (Inr v)
    from execute_step_Inr_bound[OF Inr] obtain m where bm: "bound_method step = Some m" ..
    let ?sk = "short_key step"
    have skb: "?sk \<in> set base_keys" using bm by (rule bound_method_key)
    let ?key = "report_key env ?steps ?i"
    have key_eq: "(if dict_has (results r) ?sk then ?sk @ ''_'' @ str_of_nat ?i else ?sk) = ?key"
      using used skb by (simp add: report_key_def nth_i ub del: nth_append_length)
    have key_cases: "(dict_has (results r) ?sk \<and> ?key = ?sk @ ''_'' @ str_of_nat ?i)
        \<or> (\<not> dict_has (results r) ?sk \<and> ?key = ?sk)"
      using key_eq by (cases "dict_has (results r) ?sk") simp_all
    have key_fresh: "?key \<notin> fst ` set (results r)"
    proof
      assume a: "?key \<in> fst ` set (results r)"
      then have o: "old_key ?i ?key" using old by blast
      from key_cases show False
      proof (elim disjE conjE)
        assume "?key = ?sk @ ''_'' @ str_of_nat ?i"
        then show False using old_key_not_suffixed[OF o skb] by simp
      next
        assume "\<not> dict_has (results r) ?sk" "?key = ?sk"
        then show False using a by (simp add: dict_has_iff)
      qed
    qed
    have key_old: "old_key (Suc ?i) ?key"
      using key_cases
    proof (elim disjE conjE)
      assume "?key = ?sk @ ''_'' @ str_of_nat ?i"
      then show ?thesis unfolding old_key_def using skb by blast
    next
      assume "?key = ?sk"
      then show ?thesis unfolding old_key_def using skb by simp
    qed
    have key_ne_err: "?key \<noteq> error_key ?i"
      using key_cases
    proof (elim disjE conjE)
      assume "?key = ?sk @ ''_'' @ str_of_nat ?i"
      then show ?thesis using suffixed_not_error[OF skb] by simp
    next
      assume "?key = ?sk"
      then show ?thesis using skb error_key_not_base[of ?i] by auto
    qed
    have key_base: "\<And>key. key \<in> set base_keys \<Longrightarrow> ?sk \<noteq> key \<Longrightarrow> ?key \<noteq> key"
    proof -
      fix key assume kb: "key \<in> set base_keys" and ne: "?sk \<noteq> key"
      from key_cases show "?key \<noteq> key"
      proof (elim disjE conjE)
        assume "?key = ?sk @ ''_'' @ str_of_nat ?i"
        then show ?thesis using suffixed_not_base[OF skb, of "str_of_nat ?i"] kb by auto
      next
        assume "?key = ?sk"
        then show ?thesis using ne by simp
      qed
    qed
    have ret: "returns_at env ?steps ?i"
      by (simp add: returns_at_def nth_i Inr del: nth_append_length)
    let ?r1 = "r\<lparr>results := results r @ [(?key, v)], steps_executed := steps_executed r + 1\<rparr>"
    have body: "?r' = (case completed_with_errors v of
           Inl e \<Rightarrow> handle_step_error ?i step e ?r1
         | Inr True \<Rightarrow> ?r1\<lparr>steps_failed := steps_failed ?r1 + 1\<rparr>
         | Inr False \<Rightarrow> ?r1)"
      unfolding step_body_returned[OF Inr] Let_def key_eq dict_set_fresh[OF key_fresh] ..
    have err_fresh1: "error_key ?i \<notin> fst ` set (results r @ [(?key, v)])"
      using err_fresh key_ne_err by auto
    have used': "\<forall>key \<in> set base_keys.
        key \<in> fst ` set (results r @ [(?key, v)]) \<longleftrightarrow> used_before env ?steps (length ?steps) key"
    proof
      fix key assume kb: "key \<in> set base_keys"
      have u: "used_before env ?steps (length ?steps) key \<longleftrightarrow> used_before env pre ?i key \<or> ?sk = key"
        using ret by (simp add: used_before_Suc ub nth_i del: nth_append_length)
      have h: "dict_has (results r) key \<longleftrightarrow> used_before env pre ?i key" using used kb by blast
      show "key \<in> fst ` set (results r @ [(?key, v)]) \<longleftrightarrow> used_before env ?steps (length ?steps) key"
      proof (cases "?sk = key")
        case True
        have "dict_has (results r) key \<or> ?key = key" using key_cases True by auto
        then show ?thesis using u True by (auto simp: dict_has_iff)
      next
        case False
        have "?key \<noteq> key" using key_base[OF kb False] .
        then show ?thesis using u h False by (auto simp: dict_has_iff)
      qed
    qed
    show ?thesis
    proof (cases "completed_with_errors v")
      case (Inl e)
      have ent: "step_entries env ?steps ?i = [(?key, v), (error_key ?i, error_record e step)]"
        by (simp add: step_entries_def nth_i Inr Inl del: nth_append_length)
      have fld: "failed_at env ?steps ?i"
        by (simp add: failed_at_def nth_i Inr Inl del: nth_append_length)
      have res': "results ?r' = results r @ [(?key, v), (error_key ?i, error_record e step)]"
        using dict_set_fresh[OF err_fresh1] by (simp add: body Inl handle_step_error_def)
      have ex': "steps_executed ?r' = steps_executed r + 1"
        by (simp add: body Inl handle_step_error_def)
      have fl': "steps_failed ?r' = steps_failed r + 1"
        by (simp add: body Inl handle_step_error_def)
      have c1: "results ?r' = concat (map (step_entries env ?steps) [0..<length ?steps])"
        by (simp add: res' m1 ent res del: nth_append_length)
      have c2: "steps_executed ?r' = int (length (filter (returns_at env ?steps) [0..<length ?steps]))"
        using ret by (simp add: ex' f1 ex del: nth_append_length)
      have c3: "steps_failed ?r' = int (length (filter (failed_at env ?steps) [0..<length ?steps]))"
        using fld by (simp add: fl' f2 fl del: nth_append_length)
      have c4: "distinct (map fst (results ?r'))"
        using dist key_fresh err_fresh key_ne_err by (auto simp: res')
      have c5: "\<forall>k \<in> fst ` set (results ?r'). old_key (length ?steps) k"
        using old' old_err key_old by (auto simp: res')
      have c6: "\<forall>key \<in> set base_keys. dict_has (results ?r') key \<longleftrightarrow> used_before env ?steps (length ?steps) key"
      proof
        fix key assume kb: "key \<in> set base_keys"
        then have ne: "key \<noteq> error_key ?i" using error_key_not_base by auto
        have "dict_has (results ?r') key \<longleftrightarrow> key \<in> fst ` set (results r @ [(?key, v)])"
          using ne by (auto simp: dict_has_iff res')
        then show "dict_has (results ?r') key \<longleftrightarrow> used_before env ?steps (length ?steps) key"
          using used' kb by blast
      qed
      show ?thesis unfolding report_inv_def by (intro conjI c1 c2 c3 c4 c5 c6)
    next
      case (Inr b)
      have ent: "step_entries env ?steps ?i = [(?key, v)]"
        by (simp add: step_entries_def nth_i \<open>execute_step env ?i step = Inr v\<close> Inr del: nth_append_length)
      have fld: "failed_at env ?steps ?i = b"
        by (simp add: failed_at_def nth_i \<open>execute_step env ?i step = Inr v\<close> Inr del: nth_append_length)
      have res': "results ?r' = results r @ [(?key, v)]"
        by (cases b) (simp_all add: body Inr)
      have ex': "steps_executed ?r' = steps_executed r + 1"
        by (cases b) (simp_all add: body Inr)
      have fl': "steps_failed ?r' = steps_failed r + (if b then 1 else 0)"
        by (cases b) (simp_all add: body Inr)
      have c1: "results ?r' = concat (map (step_entries env ?steps) [0..<length ?steps])"
        by (simp add: res' m1 ent res del: nth_append_length)
      have c2: "steps_executed ?r' = int (length (filter (returns_at env ?steps) [0..<length ?steps]))"
        using ret by (simp add: ex' f1 ex del: nth_append_length)
      have c3: "steps_failed ?r' = int (length (filter (failed_at env ?steps) [0..<length ?steps]))"
        using fld by (simp add: fl' f2 fl del: nth_append_length)
      have c4: "distinct (map fst (results ?r'))"
        using dist key_fresh by (auto simp: res')
      have c5: "\<forall>k \<in> fst ` set (results ?r'). old_key (length ?steps) k"
        using old' key_old by (auto simp: res')
      have c6: "\<forall>key \<in> set base_keys. dict_has (results ?r') key \<longleftrightarrow> used_before env ?steps (length ?steps) key"
        using used' by (simp add: dict_has_iff res')
      show ?thesis unfolding report_inv_def by (intro conjI c1 c2 c3 c4 c5 c6)
    qed
  qed
qed

lemma report_inv_empty: "report_inv env [] empty_report"
  by (simp add: report_inv_def empty_report_def dict_has_def used_before_def)

lemma run_steps_inv:
  "report_inv env pre r \<Longrightarrow> run_steps env (length pre) ss r = Inr rep \<Longrightarrow>
   report_inv env (pre @ ss) rep"
proof (induction ss arbitrary: pre r)
  case Nil
  then show ?case by simp
next
  case (Cons s ss)
  show ?case
  proof (cases s)
    case (PDict step)
    have inv': "report_inv env (pre @ [PDict step]) (step_body env (length pre) step r)"
      using Cons.prems(1) by (rule report_inv_step)
    have run: "run_steps env (length (pre @ [PDict step])) ss (step_body env (length pre) step r) = Inr rep"
      using Cons.prems(2) PDict by simp
    from Cons.IH[OF inv' run] show ?thesis using PDict by simp
  qed (use Cons.prems(2) in simp_all)
qed

lemma run_steps_total:
  "list_all is_dict ss \<Longrightarrow> \<exists>rep. run_steps env i ss r = Inr rep"
proof (induction ss arbitrary: i r)
  case Nil
  then show ?case by simp
next
  case (Cons s ss)
  then show ?case by (cases s) (simp_all add: is_dict_def)
qed

lemma run_steps_dicts:
  "run_steps env i ss r = Inr rep \<Longrightarrow> list_all is_dict ss"
proof (induction ss arbitrary: i r)
  case Nil
  then show ?case by simp
next
  case (Cons s ss)
  then show ?case by (cases s) (simp_all add: is_dict_def)
qed

lemma execute_plan_inv:
  assumes "plan_steps plan = Inr steps" "execute_plan env plan = Inr rep"
  shows "report_inv env steps rep"
proof -
  from assms have "run_steps env (length ([]::pyval list)) steps empty_report = Inr rep"
    by (simp add: execute_plan_def)
  from run_steps_inv[OF report_inv_empty this] show ?thesis by simp
qed

lemma execute_plan_total:
  assumes "plan_steps plan = Inr steps" "list_all is_dict steps"
  shows "\<exists>rep. execute_plan env plan = Inr rep"
  using assms run_steps_total by (simp add: execute_plan_def)


lemma report_inv_results:
  "report_inv env steps rep \<Longrightarrow> results rep = concat (map (step_entries env steps) [0..<length steps])"
  by (simp add: report_inv_def)

lemma report_inv_executed:
  "report_inv env steps rep \<Longrightarrow>
   steps_executed rep = int (length (filter (returns_at env steps) [0..<length steps]))"
  by (simp add: report_inv_def)

lemma report_inv_distinct: "report_inv env steps rep \<Longrightarrow> distinct (map fst (results rep))"
  unfolding report_inv_def by (elim conjE)





lemma step_entries_single:
  assumes "tools_ok env"
  shows "step_entries env steps j = [step_entry env steps j]"
proof (cases "execute_step env j (as_dict (steps ! j))")
  case (Inl e)
  then show ?thesis by (simp add: step_entries_def step_entry_def)
next
  case (Inr v)
  from result_shape_completed[OF execute_step_shape[OF assms Inr]]
  obtain b where "completed_with_errors v = Inr b" ..
  with Inr show ?thesis by (simp add: step_entries_def step_entry_def)
qed

lemma report_key_not_error:
  assumes "execute_step env j (as_dict (steps ! j)) = Inr v"
  shows "\<not> is_error_key (report_key env steps j)"
proof -
  have b: "short_key (as_dict (steps ! j)) \<in> set base_keys" using assms by (rule returns_short_key)
  show ?thesis
    using not_error_key_base[OF b, of "[]"] not_error_key_base[OF b, of "''_'' @ str_of_nat j"]
    by (simp add: report_key_def Let_def)
qed

lemma step_entry_error_iff:
  "is_error_key (fst (step_entry env steps j)) \<longleftrightarrow> \<not> returns_at env steps j"
proof (cases "execute_step env j (as_dict (steps ! j))")
  case (Inl e)
  then show ?thesis by (simp add: step_entry_def returns_at_def is_error_key_error)
next
  case (Inr v)
  then show ?thesis using report_key_not_error[OF Inr]
    by (simp add: step_entry_def returns_at_def)
qed

lemma concat_singletons: "(\<And>x. f x = [g x]) \<Longrightarrow> concat (map f xs) = map g xs"
  by (induction xs) simp_all

lemma results_under_contract:
  assumes "tools_ok env" "report_inv env steps rep"
  shows "results rep = map (step_entry env steps) [0..<length steps]"
proof -
  have "concat (map (step_entries env steps) [0..<length steps]) =
        map (step_entry env steps) [0..<length steps]"
    by (rule concat_singletons) (rule step_entries_single[OF assms(1)])
  then show ?thesis using report_inv_results[OF assms(2)] by simp
qed

lemma count_error_entries:
  "length (filter is_error_key (map fst (map (step_entry env steps) [0..<n]))) =
   length (filter (\<lambda>j. \<not> returns_at env steps j) [0..<n])"
proof -
  have "filter is_error_key (map fst (map (step_entry env steps) [0..<n])) =
        map (\<lambda>j. fst (step_entry env steps j)) (filter (\<lambda>j. \<not> returns_at env steps j) [0..<n])"
    by (simp add: filter_map o_def step_entry_error_iff)
  then show ?thesis by simp
qed

subsection \<open>Basic validation\<close>

lemma check_entry_missing: "missing_fields (check_entry env v kv) = missing_fields v"
  by (cases "(env, v, kv)" rule: check_entry.cases) (auto simp: add_error_def downgrade_def)

lemma foldl_check_missing: "missing_fields (foldl (check_entry env) v rs) = missing_fields v"
  by (induction rs arbitrary: v) (simp_all add: check_entry_missing)

lemma basic_validation_missing: "missing_fields (basic_validation env r) = []"
  by (simp add: basic_validation_def Let_def foldl_check_missing add_error_def)

lemma downgrade_not_success: "status (downgrade v) \<noteq> ''success''"
  by (simp add: downgrade_def)

lemma check_entry_unflagged: "\<not> entry_flagged (snd kv) \<Longrightarrow> check_entry env v kv = v"
  by (cases "(env, v, kv)" rule: check_entry.cases) (auto simp: entry_flagged_def)

lemma check_entry_flagged_status:
  "entry_flagged (snd kv) \<Longrightarrow> status (check_entry env v kv) \<noteq> ''success''"
  by (cases "(env, v, kv)" rule: check_entry.cases)
     (auto simp: entry_flagged_def add_error_def downgrade_def)

lemma check_entry_keeps_failure:
  "status v \<noteq> ''success'' \<Longrightarrow> status (check_entry env v kv) \<noteq> ''success''"
  by (cases "(env, v, kv)" rule: check_entry.cases) (auto simp: add_error_def downgrade_def)

lemma check_entry_errors_mono: "set (errors v) \<subseteq> set (errors (check_entry env v kv))"
  by (cases "(env, v, kv)" rule: check_entry.cases) (auto simp: add_error_def downgrade_def)

lemma foldl_keeps_failure:
  "status v \<noteq> ''success'' \<Longrightarrow> status (foldl (check_entry env) v rs) \<noteq> ''success''"
  by (induction rs arbitrary: v) (simp_all add: check_entry_keeps_failure)

lemma foldl_errors_mono: "set (errors v) \<subseteq> set (errors (foldl (check_entry env) v rs))"
proof (induction rs arbitrary: v)
  case Nil
  show ?case by simp
next
  case (Cons kv rs)
  have "set (errors v) \<subseteq> set (errors (check_entry env v kv))" by (rule check_entry_errors_mono)
  also have "\<dots> \<subseteq> set (errors (foldl (check_entry env) (check_entry env v kv) rs))" by (rule Cons.IH)
  finally show ?case by simp
qed

lemma foldl_success:
  "status (foldl (check_entry env) v rs) = ''success'' \<Longrightarrow>
   foldl (check_entry env) v rs = v \<and> \<not> list_ex (\<lambda>kv. entry_flagged (snd kv)) rs"
proof (induction rs arbitrary: v)
  case Nil
  then show ?case by simp
next
  case (Cons kv rs)
  from Cons.prems have s: "status (foldl (check_entry env) (check_entry env v kv) rs) = ''success''"
    by simp
  from Cons.IH[OF s] have a: "foldl (check_entry env) (check_entry env v kv) rs = check_entry env v kv"
    and b: "\<not> list_ex (\<lambda>kv. entry_flagged (snd kv)) rs" by simp_all
  from s a have "status (check_entry env v kv) = ''success''" by simp
  then have nf: "\<not> entry_flagged (snd kv)" using check_entry_flagged_status by blast
  then have "check_entry env v kv = v" by (rule check_entry_unflagged)
  with a b nf show ?case by simp
qed

lemma foldl_unflagged:
  "\<not> list_ex (\<lambda>kv. entry_flagged (snd kv)) rs \<Longrightarrow> foldl (check_entry env) v rs = v"
  by (induction rs arbitrary: v) (simp_all add: check_entry_unflagged)

lemma basic_validation_success_iff:
  "status (basic_validation env r) = ''success'' \<longleftrightarrow>
     steps_failed r \<le> 0 \<and> steps_executed r \<noteq> 0 \<and>
     \<not> list_ex (\<lambda>kv. entry_flagged (snd kv)) (results r)"
proof
  assume s: "status (basic_validation env r) = ''success''"
  let ?v0 = "\<lparr>status = ''success'', missing_fields = [], errors = []\<rparr>"
  let ?v1 = "if steps_failed r > 0
             then add_error (str_of_int (steps_failed r) @ '' step(s) failed'') (?v0\<lparr>status := ''partial''\<rparr>)
             else ?v0"
  let ?v2 = "if steps_executed r = 0
             then add_error ''No steps executed successfully'' (?v1\<lparr>status := ''failed''\<rparr>)
             else ?v1"
  have bv: "basic_validation env r = foldl (check_entry env) ?v2 (results r)"
    by (simp add: basic_validation_def Let_def)
  from s bv have "status (foldl (check_entry env) ?v2 (results r)) = ''success''" by simp
  from foldl_success[OF this] have a: "foldl (check_entry env) ?v2 (results r) = ?v2"
    and b: "\<not> list_ex (\<lambda>kv. entry_flagged (snd kv)) (results r)" by blast+
  from s bv a have "status ?v2 = ''success''" by simp
  then have "steps_failed r \<le> 0 \<and> steps_executed r \<noteq> 0"
    by (auto simp: add_error_def split: if_splits)
  with b show "steps_failed r \<le> 0 \<and> steps_executed r \<noteq> 0 \<and>
     \<not> list_ex (\<lambda>kv. entry_flagged (snd kv)) (results r)" by simp
next
  assume "steps_failed r \<le> 0 \<and> steps_executed r \<noteq> 0 \<and>
     \<not> list_ex (\<lambda>kv. entry_flagged (snd kv)) (results r)"
  then show "status (basic_validation env r) = ''success''"
    by (simp add: basic_validation_def Let_def foldl_unflagged)
qed

lemma basic_validation_success_value:
  assumes "status (basic_validation env r) = ''success''"
  shows "basic_validation env r = \<lparr>status = ''success'', missing_fields = [], errors = []\<rparr>"
proof -
  from assms have c: "steps_failed r \<le> 0" "steps_executed r \<noteq> 0"
    "\<not> list_ex (\<lambda>kv. entry_flagged (snd kv)) (results r)"
    by (simp_all add: basic_validation_success_iff)
  then show ?thesis by (simp add: basic_validation_def Let_def foldl_unflagged)
qed

lemma py_str_llm: "py_str (env\<lparr>generate_json := g\<rparr>) v = py_str env v"
  by (cases v) simp_all

lemma check_entry_llm: "check_entry (env\<lparr>generate_json := g\<rparr>) v kv = check_entry env v kv"
  by (cases "(env, v, kv)" rule: check_entry.cases) (simp_all add: py_str_llm)

lemma basic_validation_llm: "basic_validation (env\<lparr>generate_json := g\<rparr>) r = basic_validation env r"
proof -
  have "check_entry (env\<lparr>generate_json := g\<rparr>) = check_entry env"
    by (intro ext) (rule check_entry_llm)
  then show ?thesis by (simp add: basic_validation_def)
qed

subsection \<open>Formatting\<close>

lemma format_results_fields:
  "\<exists>res. format_results r v =
     PDict [(''status'', PStr (status v)), (''results'', PDict res),
            (''missing_fields'', PList (missing_fields v)),
            (''errors'', PList (map PStr (errors v)))]"
  by (simp add: format_results_def split: prod.splits)

lemma weather_from_step:
  "weather_from w (kv # rs) = weather_from (if weather_entry kv then as_dict (snd kv) else w) rs"
  by (simp add: weather_from_def split: list.splits)

lemma organize_step:
  "organize (g, w) kv =
     (g @ (if is_sub ''github'' (fst kv) then flatten_github kv else []),
      if weather_entry kv then as_dict (snd kv) else w)"
  by (cases kv; cases "snd kv")
     (auto simp: flatten_github_def weather_entry_def is_dict_def as_dict_def)

lemma foldl_organize:
  "foldl organize (g, w) rs = (g @ github_repos_of rs, weather_from w rs)"
proof (induction rs arbitrary: g w)
  case Nil
  show ?case by (simp add: github_repos_of_def weather_from_def)
next
  case (Cons kv rs)
  show ?case
    unfolding foldl_Cons organize_step Cons.IH weather_from_step[of w kv rs]
    by (simp add: github_repos_of_def)
qed

lemma format_results_grouped:
  "format_results r v =
     PDict [(''status'', PStr (status v)), (''results'', PDict (grouped_results (results r))),
            (''missing_fields'', PList (missing_fields v)),
            (''errors'', PList (map PStr (errors v)))]"
  by (simp add: format_results_def foldl_organize grouped_results_def)

subsection \<open>Plan validation\<close>

lemma validate_steps_iff: "validate_steps ss = list_all step_structure ss"
proof (induction ss rule: validate_steps.induct)
  case (2 step ss)
  then show ?case
    by (auto simp: step_structure_def valid_tools_def dict_get_default_def dict_has_def
        split: option.splits)
qed (simp_all add: step_structure_def)

lemma validate_plan_iff: "validate_plan p = plan_structure p"
  by (cases p) (auto simp: plan_structure_def validate_steps_iff split: option.splits pyval.splits)

text \<open>A plan that \<open>create_plan\<close> returns never makes \<open>execute_plan\<close> raise.\<close>

lemma validate_steps_dicts: "validate_steps ss \<Longrightarrow> list_all is_dict ss"
  by (induction ss rule: validate_steps.induct) (simp_all add: is_dict_def split: if_splits)

lemma validated_plan_steps:
  assumes "validate_plan plan"
  shows "\<exists>steps. plan_steps plan = Inr steps \<and> list_all is_dict steps"
proof (cases plan)
  case (PDict p)
  with assms obtain steps where s: "dict_get p ''steps'' = Some (PList steps)" and v: "validate_steps steps"
    by (auto split: option.splits pyval.splits)
  from s PDict have "plan_steps plan = Inr steps"
    by (simp add: plan_steps_def dict_get_default_def)
  with validate_steps_dicts[OF v] show ?thesis by blast
qed (use assms in simp_all)

lemma created_plan_runs:
  assumes "create_plan env user_input = Inr plan"
  shows "\<exists>rep. execute_plan env' plan = Inr rep"
proof -
  from assms have "validate_plan plan"
    by (auto simp: create_plan_def split: sum.splits if_splits)
  from validated_plan_steps[OF this] obtain steps where
    "plan_steps plan = Inr steps" "list_all is_dict steps" by blast
  then show ?thesis by (rule execute_plan_total)
qed

subsection \<open>The example data, evaluated\<close>

lemma demo_plan_steps:
  "plan_steps demo_plan =
     Inr [mk_step ''github'' ''search_repos'' [(''query'', PStr ''python'')],
          mk_step ''github'' ''search_repos'' [(''query'', PStr ''rust'')],
          mk_step ''slack'' ''post'' []]"
  by (simp add: plan_steps_def demo_plan_def dict_get_default_def)

lemma demo_env_ok: "tools_ok demo_env"
  by (simp add: tools_ok_def demo_env_def result_shape_def is_dict_def)

lemma demo_execute: "execute_plan demo_env demo_plan = Inr demo_report"
  by (simp add: execute_plan_def demo_plan_steps mk_step_def step_body_def execute_step_def
      dict_get_default_def action_map_def invoke_def demo_env_def result_key_def dict_has_def
      empty_report_def demo_report_def demo_repos_def error_flag_def handle_step_error_def
      error_key_def error_record_def str_of_nat.simps digit_char_def)



section \<open>Properties of the Executor\<close>

subsection \<open>The aggregate report\<close>

text \<open>
  Claim C1. For a plan that \<open>execute_plan\<close> runs to a report, with tools that return what
  their signatures announce (a dict, or a list of dicts): \<open>steps_executed\<close> plus the
  number of \<open>error_step_*\<close> entries is at most the number of steps, the results hold
  exactly one entry per step, under distinct keys, and the entry at position \<open>j\<close> is the
  one of step \<open>j\<close>: its error record under \<open>error_step_j\<close> when the dispatch raised, its
  outcome under the key of the collision rule otherwise.
\<close>

theorem report_aggregate_invariant:
  assumes "tools_ok env" "plan_steps plan = Inr steps" "execute_plan env plan = Inr rep"
  shows "steps_executed rep + int (length (filter is_error_key (map fst (results rep))))
           \<le> int (length steps) \<and>
         length (results rep) = length steps \<and>
         distinct (map fst (results rep)) \<and>
         (\<forall>j<length steps. results rep ! j = step_entry env steps j)"
proof -
  have inv: "report_inv env steps rep" using assms(2,3) by (rule execute_plan_inv)
  have res: "results rep = map (step_entry env steps) [0..<length steps]"
    using assms(1) inv by (rule results_under_contract)
  have cnt: "length (filter (returns_at env steps) [0..<length steps]) +
             length (filter (\<lambda>j. \<not> returns_at env steps j) [0..<length steps]) = length steps"
    using sum_length_filter_compl[of "returns_at env steps" "[0..<length steps]"] by simp
  have c1: "steps_executed rep + int (length (filter is_error_key (map fst (results rep))))
           \<le> int (length steps)"
    unfolding report_inv_executed[OF inv] res count_error_entries using cnt by linarith
  have c2: "length (results rep) = length steps" by (simp add: res)
  have c3: "distinct (map fst (results rep))" using inv by (rule report_inv_distinct)
  have c4: "\<forall>j<length steps. results rep ! j = step_entry env steps j" by (simp add: res)
  from c1 c2 c3 c4 show ?thesis by (intro conjI)
qed

theorem report_aggregate_invariant_witness:
  "steps_executed demo_report + int (length (filter is_error_key (map fst (results demo_report)))) \<le> 3 \<and>
   length (results demo_report) = 3 \<and>
   results demo_report ! 1 =
     step_entry demo_env
       [mk_step ''github'' ''search_repos'' [(''query'', PStr ''python'')],
        mk_step ''github'' ''search_repos'' [(''query'', PStr ''rust'')],
        mk_step ''slack'' ''post'' []] 1"
  using report_aggregate_invariant[OF demo_env_ok demo_plan_steps demo_execute]
  by simp

subsection \<open>Unknown tools and actions\<close>



subsection \<open>Parameter errors\<close>



subsection \<open>Colliding result keys\<close>




section \<open>Properties of the Verifier\<close>

subsection \<open>Fallback when the LLM path raises\<close>

text \<open>
  Claim C2. Whenever the LLM verification path raises (the LLM call itself raises, which
  includes an answer that does not parse as JSON, or the backfilling of the answer raises),
  \<open>verify_and_format\<close> returns the value that the deterministic formatter computes from the
  basic-validation verdict of the same report. The result type of \<open>verify_and_format\<close>
  has no error branch: the only raising callee is guarded by the \<open>try\<close>.
\<close>

theorem verify_fallback_equals_basic_format:
  assumes "generate_json env (VerifyRequest r q) = Inl e \<or> llm_verification env r q = Inl e"
  shows "verify_and_format env r q = format_results r (basic_validation env r)"
proof -
  from assms have "\<exists>e'. llm_verification env r q = Inl e'"
    by (auto simp: llm_verification_def)
  then show ?thesis by (auto simp: verify_and_format_def Let_def)
qed

theorem verify_fallback_equals_basic_format_witness:
  "verify_and_format demo_env empty_report ''list repos'' =
     PDict [(''status'', PStr ''failed''), (''results'', PDict []), (''missing_fields'', PList []),
            (''errors'', PList [PStr ''No steps executed successfully''])]"
proof -
  have h: "generate_json demo_env (VerifyRequest empty_report ''list repos'') =
             Inl (ValueError ''LLM did not return valid JSON'')"
    by (simp add: demo_env_def)
  show ?thesis
    using verify_fallback_equals_basic_format[of demo_env empty_report "''list repos''", OF disjI1, OF h]
    by (simp add: format_results_def basic_validation_def empty_report_def add_error_def)
qed

subsection \<open>Embedded error markers\<close>

text \<open>
  Claim C3, as the code has it. \<open>_basic_validation\<close> tests \<open>value.get("error")\<close> for its
  truth value, whatever its type: a result entry that is a dict whose \<open>error\<close> field is
  truthy (the boolean \<open>True\<close>, a non-empty string such as the forecast stub's
  \<open>"Forecast not implemented"\<close>, a non-zero number, ...) is classified as a failure: the
  status is not \<open>success\<close> and \<open>errors\<close> holds \<open>"<key>: <message or Unknown error>"\<close>.
\<close>

theorem truthy_error_marks_failure:
  assumes "(key, PDict d) \<in> set (results r)" "dict_get d ''error'' = Some x" "truthy x"
  shows "status (basic_validation env r) \<noteq> ''success'' \<and>
         key @ '': '' @ py_str env (dict_get_default d ''message'' (PStr ''Unknown error''))
           \<in> set (errors (basic_validation env r))"
proof -
  let ?msg = "key @ '': '' @ py_str env (dict_get_default d ''message'' (PStr ''Unknown error''))"
  from assms(1) obtain xs ys where sp: "results r = xs @ (key, PDict d) # ys"
    by (auto dest: split_list)
  have fl: "error_flag d" using assms(2,3) by (simp add: error_flag_def)
  obtain v2 where bv: "basic_validation env r = foldl (check_entry env) v2 (results r)"
    by (simp add: basic_validation_def Let_def)
  let ?v = "foldl (check_entry env) v2 xs"
  let ?w = "check_entry env ?v (key, PDict d)"
  have bw: "basic_validation env r = foldl (check_entry env) ?w ys" by (simp add: bv sp)
  have "status ?w \<noteq> ''success''" using fl by (simp add: add_error_def downgrade_not_success)
  then have c1: "status (basic_validation env r) \<noteq> ''success''"
    unfolding bw by (rule foldl_keeps_failure)
  have "?msg \<in> set (errors ?w)" using fl by (simp add: add_error_def)
  then have c2: "?msg \<in> set (errors (basic_validation env r))"
    unfolding bw using foldl_errors_mono by blast
  from c1 c2 show ?thesis by (intro conjI)
qed

text \<open>
  The claim as the specification states it (only a boolean \<open>error\<close> marks a failure) fails
  on the forecast stub itself: the executor counts the step as failed, and basic validation
  lists the entry among the errors, also when \<open>steps_failed\<close> is set back to 0.
\<close>

theorem forecast_stub_counterexample:
  "execute_plan demo_env forecast_plan = Inr forecast_report \<and>
   basic_validation demo_env forecast_report =
     \<lparr>status = ''partial'', missing_fields = [],
      errors = [''1 step(s) failed'', ''weather_get_forecast: Unknown error'']\<rparr> \<and>
   basic_validation demo_env (forecast_report\<lparr>steps_failed := 0\<rparr>) =
     \<lparr>status = ''partial'', missing_fields = [],
      errors = [''weather_get_forecast: Unknown error'']\<rparr>"
  by (simp add: execute_plan_def plan_steps_def forecast_plan_def mk_step_def step_body_def
      execute_step_def dict_get_default_def action_map_def invoke_def get_weather_forecast_def
      result_key_def dict_has_def empty_report_def forecast_report_def error_flag_def
      basic_validation_def add_error_def downgrade_def str_of_int_def str_of_nat.simps
      digit_char_def)

theorem truthy_error_marks_failure_witness:
  "status (basic_validation demo_env forecast_report) \<noteq> ''success'' \<and>
   ''weather_get_forecast: Unknown error'' \<in> set (errors (basic_validation demo_env forecast_report))"
proof -
  let ?d = "[(''city'', PStr ''Delhi''), (''forecast'', PList []),
             (''error'', PStr ''Forecast not implemented'')]"
  have a: "(''weather_get_forecast'', PDict ?d) \<in> set (results forecast_report)"
    by (simp add: forecast_report_def)
  have b: "dict_get ?d ''error'' = Some (PStr ''Forecast not implemented'')" by simp
  have c: "truthy (PStr ''Forecast not implemented'')" by simp
  from truthy_error_marks_failure[OF a b c, of demo_env]
  show ?thesis by (simp add: dict_get_default_def)
qed

subsection \<open>Plans without steps\<close>

text \<open>
  Claim C4, as the code has it. For a plan with no steps \<open>execute_plan\<close> returns the report
  \<open>{steps_executed: 0, steps_failed: 0, results: {}}\<close>, whose basic-validation verdict is
  \<open>failed\<close>; \<open>verify_and_format\<close> therefore asks the LLM: when that path raises the result
  is the deterministic one with status \<open>failed\<close>, and when it returns, the LLM's answer is
  the result, whatever status it carries.
\<close>

theorem empty_plan_report_and_verdict:
  assumes "plan_steps plan = Inr []"
  shows "execute_plan env plan = Inr empty_report \<and>
         basic_validation env empty_report =
           \<lparr>status = ''failed'', missing_fields = [], errors = [''No steps executed successfully'']\<rparr> \<and>
         (\<forall>e. llm_verification env empty_report q = Inl e \<longrightarrow>
              verify_and_format env empty_report q =
                PDict [(''status'', PStr ''failed''), (''results'', PDict []),
                       (''missing_fields'', PList []),
                       (''errors'', PList [PStr ''No steps executed successfully''])]) \<and>
         (\<forall>answer. llm_verification env empty_report q = Inr answer \<longrightarrow>
              verify_and_format env empty_report q = answer)"
proof -
  have c1: "execute_plan env plan = Inr empty_report" using assms by (simp add: execute_plan_def)
  have c2: "basic_validation env empty_report =
           \<lparr>status = ''failed'', missing_fields = [], errors = [''No steps executed successfully'']\<rparr>"
    by (simp add: basic_validation_def empty_report_def add_error_def)
  have g: "grouped_results (results empty_report) = []"
    by (simp add: grouped_results_def empty_report_def github_repos_of_def weather_from_def)
  have c3: "\<forall>e. llm_verification env empty_report q = Inl e \<longrightarrow>
              verify_and_format env empty_report q =
                PDict [(''status'', PStr ''failed''), (''results'', PDict []),
                       (''missing_fields'', PList []),
                       (''errors'', PList [PStr ''No steps executed successfully''])]"
    by (simp add: verify_and_format_def c2 format_results_grouped g)
  have c4: "\<forall>answer. llm_verification env empty_report q = Inr answer \<longrightarrow>
              verify_and_format env empty_report q = answer"
    by (simp add: verify_and_format_def c2)
  from c1 c2 c3 c4 show ?thesis by (intro conjI)
qed

text \<open>
  The claim as the specification states it (the result for the empty report has status
  \<open>failed\<close>) fails when the LLM answers \<open>{"status": "success", "results": {}}\<close>: that answer
  is returned.
\<close>

theorem empty_plan_llm_counterexample:
  "execute_plan (answering_env optimistic_answer) (PDict [(''steps'', PList [])]) = Inr empty_report \<and>
   verify_and_format (answering_env optimistic_answer) empty_report ''anything'' =
     PDict [(''status'', PStr ''success''), (''results'', PDict [])]"
  by (simp add: execute_plan_def plan_steps_def dict_get_default_def verify_and_format_def
      basic_validation_def empty_report_def add_error_def llm_verification_def backfill_def
      answering_env_def optimistic_answer_def dict_has_def)

theorem empty_plan_report_and_verdict_witness:
  "execute_plan demo_env (PDict [(''steps'', PList [])]) = Inr empty_report \<and>
   verify_and_format demo_env empty_report ''anything'' =
     PDict [(''status'', PStr ''failed''), (''results'', PDict []), (''missing_fields'', PList []),
            (''errors'', PList [PStr ''No steps executed successfully''])]"
proof -
  have p: "plan_steps (PDict [(''steps'', PList [])]) = Inr []"
    by (simp add: plan_steps_def dict_get_default_def)
  have l: "llm_verification demo_env empty_report ''anything'' =
             Inl (ValueError ''LLM did not return valid JSON'')"
    by (simp add: llm_verification_def demo_env_def)
  from empty_plan_report_and_verdict[OF p, of demo_env "''anything''"] l
  show ?thesis by simp
qed

subsection \<open>The deterministic format\<close>

text \<open>
  Claim C8, as the code has it. When basic validation says \<open>success\<close>, the result of
  \<open>verify_and_format\<close> is the deterministic format and does not depend on the LLM. Its
  \<open>results\<close> are \<open>grouped_results\<close>: the entries whose key contains \<open>github\<close> are
  accumulated in order (a list flattened in, a dict appended) and stored as
  \<open>github_repos\<close> when that list is not empty; among the entries whose key contains
  \<open>weather\<close> but not \<open>github\<close>, the last dict becomes \<open>weather\<close> when it is not empty.
\<close>

theorem success_formats_without_llm:
  assumes "status (basic_validation env r) = ''success''"
  shows "verify_and_format env r q =
           PDict [(''status'', PStr ''success''), (''results'', PDict (grouped_results (results r))),
                  (''missing_fields'', PList []), (''errors'', PList [])] \<and>
         (\<forall>g. verify_and_format (env\<lparr>generate_json := g\<rparr>) r q = verify_and_format env r q)"
proof -
  have v: "basic_validation env r = \<lparr>status = ''success'', missing_fields = [], errors = []\<rparr>"
    using assms by (rule basic_validation_success_value)
  have c1: "verify_and_format env r q =
           PDict [(''status'', PStr ''success''), (''results'', PDict (grouped_results (results r))),
                  (''missing_fields'', PList []), (''errors'', PList [])]"
    by (simp add: verify_and_format_def v format_results_grouped)
  have c2: "\<forall>g. verify_and_format (env\<lparr>generate_json := g\<rparr>) r q = verify_and_format env r q"
    by (simp add: verify_and_format_def basic_validation_llm v)
  from c1 c2 show ?thesis by (intro conjI)
qed

text \<open>
  The claim as the specification states it (the last dict-valued entry with \<open>weather\<close> in its
  key becomes \<open>results.weather\<close>) fails on a report whose only weather entry is the empty
  dict, and on a report whose key contains both \<open>github\<close> and \<open>weather\<close>: neither result
  has a \<open>weather\<close> entry.
\<close>

theorem weather_grouping_counterexample:
  "status (basic_validation demo_env empty_weather_report) = ''success'' \<and>
   verify_and_format demo_env empty_weather_report ''weather'' =
     PDict [(''status'', PStr ''success''), (''results'', PDict []),
            (''missing_fields'', PList []), (''errors'', PList [])] \<and>
   status (basic_validation demo_env mixed_key_report) = ''success'' \<and>
   verify_and_format demo_env mixed_key_report ''weather'' =
     PDict [(''status'', PStr ''success''),
            (''results'', PDict [(''github_repos'', PList [PDict [(''city'', PStr ''Delhi'')]])]),
            (''missing_fields'', PList []), (''errors'', PList [])]"
  by (simp add: verify_and_format_def basic_validation_def empty_weather_report_def
      mixed_key_report_def error_flag_def format_results_def)

theorem success_formats_without_llm_witness:
  "verify_and_format demo_env happy_report ''repos and weather'' =
     PDict [(''status'', PStr ''success''),
            (''results'',
             PDict [(''github_repos'',
                     PList [PDict [(''name'', PStr ''a/x''), (''stars'', PInt 3)],
                            PDict [(''name'', PStr ''b/y''), (''stars'', PInt 2)],
                            PDict [(''name'', PStr ''c/z''), (''stars'', PInt 1)]]),
                    (''weather'', PDict [(''city'', PStr ''Delhi''), (''temperature'', PInt 31)])]),
            (''missing_fields'', PList []), (''errors'', PList [])]"
proof -
  have s: "status (basic_validation demo_env happy_report) = ''success''"
    by (simp add: basic_validation_def happy_report_def error_flag_def)
  have g: "grouped_results (results happy_report) =
     [(''github_repos'',
       PList [PDict [(''name'', PStr ''a/x''), (''stars'', PInt 3)],
              PDict [(''name'', PStr ''b/y''), (''stars'', PInt 2)],
              PDict [(''name'', PStr ''c/z''), (''stars'', PInt 1)]]),
      (''weather'', PDict [(''city'', PStr ''Delhi''), (''temperature'', PInt 31)])]"
    by (simp add: grouped_results_def github_repos_of_def weather_from_def weather_entry_def
        flatten_github_def happy_report_def is_dict_def as_dict_def)
  from success_formats_without_llm[OF s, of "''repos and weather''"] show ?thesis
    by (simp add: g)
qed

text \<open>
  Claim C10. On both paths that end in the deterministic formatter (basic validation says
  \<open>success\<close>, or the LLM verification path raised) the result is a dict whose
  \<open>missing_fields\<close> entry is the empty list.
\<close>

theorem deterministic_paths_missing_fields_empty:
  assumes "status (basic_validation env r) = ''success'' \<or> llm_verification env r q = Inl e"
  shows "\<exists>d. verify_and_format env r q = PDict d \<and> dict_get d ''missing_fields'' = Some (PList [])"
proof -
  from assms have "verify_and_format env r q = format_results r (basic_validation env r)"
    by (auto simp: verify_and_format_def Let_def)
  moreover from format_results_fields[of r "basic_validation env r"] obtain res where
    "format_results r (basic_validation env r) =
       PDict [(''status'', PStr (status (basic_validation env r))), (''results'', PDict res),
              (''missing_fields'', PList (missing_fields (basic_validation env r))),
              (''errors'', PList (map PStr (errors (basic_validation env r))))]" ..
  ultimately show ?thesis by (simp add: basic_validation_missing)
qed

theorem deterministic_paths_missing_fields_empty_witness:
  "\<exists>d. verify_and_format demo_env empty_report ''list repos'' = PDict d \<and>
       dict_get d ''missing_fields'' = Some (PList [])"
proof -
  have h: "llm_verification demo_env empty_report ''list repos'' =
             Inl (ValueError ''LLM did not return valid JSON'')"
    by (simp add: llm_verification_def demo_env_def)
  show ?thesis
    using deterministic_paths_missing_fields_empty[OF disjI2, OF h] .
qed

section \<open>Properties of the Planner\<close>

text \<open>
  Claim C9. \<open>refine_plan\<close> returns the original plan, unchanged, when the LLM call raises
  and when the LLM's answer is not a structurally valid plan; \<open>plan_structure\<close> is the
  validity the specification words, shown above to be what \<open>_validate_plan\<close> computes.
\<close>

theorem refine_plan_falls_back_to_original:
  assumes "(\<exists>e. generate_json env (RefineRequest plan feedback) = Inl e) \<or>
           (\<exists>refined. generate_json env (RefineRequest plan feedback) = Inr refined \<and>
                      \<not> plan_structure refined)"
  shows "refine_plan env plan feedback = plan"
  using assms by (auto simp: refine_plan_def validate_plan_iff)

theorem refine_plan_falls_back_to_original_witness:
  "\<not> plan_structure (PDict [(''steps'', PList [mk_step ''slack'' ''post'' []])]) \<and>
   refine_plan (answering_env (PDict [(''steps'', PList [mk_step ''slack'' ''post'' []])]))
     (PDict [(''steps'', PList [mk_step ''github'' ''search_repos'' [(''query'', PStr ''python'')]])])
     ''step 1 failed'' =
   PDict [(''steps'', PList [mk_step ''github'' ''search_repos'' [(''query'', PStr ''python'')]])]"
proof -
  let ?bad = "PDict [(''steps'', PList [mk_step ''slack'' ''post'' []])]"
  let ?plan = "PDict [(''steps'', PList [mk_step ''github'' ''search_repos'' [(''query'', PStr ''python'')]])]"
  have bad: "\<not> plan_structure ?bad"
    by (simp add: plan_structure_def step_structure_def mk_step_def dict_has_def)
  have gen: "generate_json (answering_env ?bad) (RefineRequest ?plan ''step 1 failed'') = Inr ?bad"
    by (simp add: answering_env_def)
  have "\<exists>refined. generate_json (answering_env ?bad) (RefineRequest ?plan ''step 1 failed'') = Inr refined
          \<and> \<not> plan_structure refined"
    using gen bad by blast
  from refine_plan_falls_back_to_original[OF disjI2, OF this] bad show ?thesis by simp
qed

end
